theory Spec2Isabelle
  imports Main "HOL-Library.Word"
begin

section \<open>Python string operations used by the interface source\<close>

text \<open>
  The strings of \<^verbatim>\<open>detect_ethercat_interface.py\<close> are modelled as \<^typ>\<open>string\<close>
  (lists of 8-bit characters); the output of \<^verbatim>\<open>ip\<close> and \<^verbatim>\<open>ifconfig\<close> is ASCII.
\<close>

text \<open>\<^verbatim>\<open>s.startswith(p)\<close>\<close>

definition startswith :: "string \<Rightarrow> string \<Rightarrow> bool" where
  "startswith s p = (take (length p) s = p)"

text \<open>\<^verbatim>\<open>p in s\<close> for strings: \<open>p\<close> occurs in \<open>s\<close> as a substring.\<close>

fun contains :: "string \<Rightarrow> string \<Rightarrow> bool" where
  "contains [] p = (p = [])"
| "contains (c # cs) p = (startswith (c # cs) p \<or> contains cs p)"

text \<open>
  \<^verbatim>\<open>s.split(sep)\<close> for a separator of one character: the result is never empty, and
  an empty string gives one empty field.
\<close>

fun split :: "char \<Rightarrow> string \<Rightarrow> string list" where
  "split sep [] = [[]]"
| "split sep (c # cs) =
     (if c = sep then [] # split sep cs
      else (case split sep cs of
              [] \<Rightarrow> [[c]]
            | w # ws \<Rightarrow> (c # w) # ws))"

text \<open>\<^verbatim>\<open>s.lower()\<close> on ASCII: only the letters A to Z change.\<close>

definition lower_char :: "char \<Rightarrow> char" where
  "lower_char c =
     (case map_of (zip ''ABCDEFGHIJKLMNOPQRSTUVWXYZ'' ''abcdefghijklmnopqrstuvwxyz'') c of
        None \<Rightarrow> c
      | Some d \<Rightarrow> d)"

definition lower :: "string \<Rightarrow> string" where
  "lower s = map lower_char s"

text \<open>
  \<^verbatim>\<open>s.strip()\<close>: the ASCII characters Python counts as whitespace are 0x09 to 0x0D,
  0x1C to 0x1F and the space.
\<close>

definition isspace :: "char \<Rightarrow> bool" where
  "isspace c =
     (c \<in> set [CHR 0x09, CHR 0x0A, CHR 0x0B, CHR 0x0C, CHR 0x0D,
               CHR 0x1C, CHR 0x1D, CHR 0x1E, CHR 0x1F, CHR 0x20])"

definition strip :: "string \<Rightarrow> string" where
  "strip s = rev (dropWhile isspace (rev (dropWhile isspace s)))"


section \<open>The interface source: \<^verbatim>\<open>get_network_interfaces\<close>\<close>

text \<open>
  An instance of Python's \<^verbatim>\<open>Exception\<close>, with its message. What is raised in the model
  is always such an instance: \<^verbatim>\<open>KeyboardInterrupt\<close> and \<^verbatim>\<open>SystemExit\<close>, which
  \<^verbatim>\<open>except Exception\<close> lets through, stay outside.
\<close>

datatype exn = Exception string

text \<open>
  What \<^verbatim>\<open>subprocess.run(..., capture_output=True, text=True, check=False)\<close> gives:
  it raises (the command does not exist, its output does not decode), or it returns a
  completed process with a return code and the captured standard output. With
  \<^verbatim>\<open>check=False\<close> a non-zero return code raises nothing.
\<close>

datatype completed_process = CompletedProcess (returncode: int) (stdout: string)

text \<open>
  The host platform, as far as the interface source consults it: the outcome of
  \<^verbatim>\<open>ip link show\<close> and the outcome of \<^verbatim>\<open>ifconfig\<close>.
\<close>

record platform =
  ip_link_show :: "exn + completed_process"
  ifconfig :: "exn + completed_process"

text \<open>Lines 25 to 32, for one line of the output of \<^verbatim>\<open>ip link show\<close>.\<close>

definition ip_line :: "string \<Rightarrow> string list" where
  "ip_line line =
     (if CHR '':'' \<in> set line \<and> contains (lower line) ''state'' then
        (let parts = split CHR '':'' line in
         if length parts \<ge> 2 then
           (let iface = strip (parts ! 1) in
            if \<not> startswith iface ''lo'' \<and> \<not> startswith iface ''veth'' then [iface]
            else [])
         else [])
      else [])"

text \<open>Lines 40 to 45, for one line of the output of \<^verbatim>\<open>ifconfig\<close>.\<close>

definition ifconfig_line :: "string \<Rightarrow> string list" where
  "ifconfig_line line =
     (if CHR '':'' \<in> set line \<and> contains line ''flags='' then
        (case split CHR '':'' line of
           [] \<Rightarrow> []
         | iface # _ \<Rightarrow>
             if startswith iface ''en'' \<or> startswith iface ''eth'' then [iface] else [])
      else [])"

text \<open>
  The two \<^verbatim>\<open>for line in result.stdout.split('\n')\<close> loops: each line appends at most
  one name to \<^verbatim>\<open>interfaces\<close>, in the order of the lines.
\<close>

fun parse_lines :: "(string \<Rightarrow> string list) \<Rightarrow> string list \<Rightarrow> string list" where
  "parse_lines per_line [] = []"
| "parse_lines per_line (line # lines) = per_line line @ parse_lines per_line lines"

definition fallback :: "string list" where
  "fallback = [''eth0'', ''eth1'', ''enp0s3'', ''en0'', ''en9'']"

text \<open>
  Lines 12 to 52. The only statements of the \<^verbatim>\<open>try\<close> block that can raise are the two
  calls of \<^verbatim>\<open>subprocess.run\<close>; the handler replaces \<^verbatim>\<open>interfaces\<close> by the fallback
  list. The return code of \<^verbatim>\<open>ifconfig\<close> is never looked at.
\<close>

definition get_network_interfaces :: "platform \<Rightarrow> string list" where
  "get_network_interfaces p =
     (case ip_link_show p of
        Inl e \<Rightarrow> fallback
      | Inr result \<Rightarrow>
          if returncode result = 0 then
            parse_lines ip_line (split CHR 0x0A (stdout result))
          else
            (case ifconfig p of
               Inl e \<Rightarrow> fallback
             | Inr result \<Rightarrow> parse_lines ifconfig_line (split CHR 0x0A (stdout result))))"


section \<open>The master capability surface (\<^verbatim>\<open>pysoem\<close>)\<close>

text \<open>
  \<^verbatim>\<open>pysoem\<close> is not part of the repository: what it does is a parameter of the model.
  A slave of \<^verbatim>\<open>master.slaves\<close> has a name and the 32-bit vendor and product codes
  (\<^verbatim>\<open>slave.man\<close>, \<^verbatim>\<open>slave.id\<close>).
\<close>

record slave =
  name :: string
  man :: "32 word"
  ident :: "32 word"

text \<open>
  One \<^verbatim>\<open>Master\<close> object: what \<^verbatim>\<open>open(interface)\<close> raises (if anything), what
  \<^verbatim>\<open>config_init()\<close> raises or returns, the list \<^verbatim>\<open>slaves\<close>, and what the call of
  \<^verbatim>\<open>close()\<close> raises when \<open>n\<close> calls of \<^verbatim>\<open>close()\<close> came before it on this object.
  The count returned by \<^verbatim>\<open>config_init()\<close> and the length of \<^verbatim>\<open>slaves\<close> are
  independent here: the probe tests the first and prints the second.
\<close>

record master =
  open_m :: "string \<Rightarrow> exn option"
  config_init :: "exn + int"
  slaves :: "slave list"
  close_m :: "nat \<Rightarrow> exn option"

text \<open>
  The stack: what the \<open>k\<close>-th call of \<^verbatim>\<open>pysoem.Master()\<close> does (counted from 0), either
  raising or returning a \<^verbatim>\<open>Master\<close> object. The loop constructs one object per
  candidate, so \<open>k\<close> is also the position of the candidate in the list.
\<close>

type_synonym stack = "nat \<Rightarrow> exn + master"


section \<open>The probe: \<^verbatim>\<open>detect_ethercat_interface\<close>\<close>

text \<open>What the probe prints (the text itself is not modelled, its content is).\<close>

datatype msg =
    Banner
  | Found_interfaces "string list"
  | No_interfaces
  | Trying string
  | Found int
  | Slave_info nat slave
  | No_slaves
  | Error_msg exn
  | No_slaves_anywhere

text \<open>The methods of the capability surface.\<close>

datatype call = Master_new | Master_open string | Config_init | Master_close

text \<open>
  The effects of a run, in the order they happen: a line printed, or a call on the
  capability surface, with the object it is made on (its number \<open>k\<close>) and the
  exception it raised, if any.
\<close>

datatype effect = Print msg | Call nat call "exn option"

text \<open>
  The standard output, as far as the probe depends on it: what printing a line raises,
  if anything. Line 81 prints the check mark U+2713, which a stream with an ASCII or
  Latin-1 encoding cannot encode (\<^verbatim>\<open>UnicodeEncodeError\<close>); printing the entry of a slave
  (lines 85 to 87) reads and formats its fields. The console is consulted for the lines
  printed inside the \<^verbatim>\<open>try\<close> (81 to 87 and 93), where the handler catches what is
  raised. The lines printed outside the \<^verbatim>\<open>try\<close> blocks are taken to print: an exception
  there would leave the function, a case the model does not have.
\<close>

type_synonym console = "msg \<Rightarrow> exn option"

text \<open>
  Printing lines one after the other: the lines that were printed, and the exception
  of the first line that raised, after which nothing more is printed.
\<close>

fun print_lines :: "console \<Rightarrow> msg list \<Rightarrow> effect list \<times> exn option" where
  "print_lines console [] = ([], None)"
| "print_lines console (m # ms) =
     (case console m of
        Some e \<Rightarrow> ([], Some e)
      | None \<Rightarrow> (case print_lines console ms of (effs, r) \<Rightarrow> (Print m # effs, r)))"

text \<open>
  Lines 81 to 87: the count, then one entry per element of
  \<^verbatim>\<open>enumerate(master.slaves)\<close>.
\<close>

definition report :: "int \<Rightarrow> slave list \<Rightarrow> msg list" where
  "report slave_count ss = Found slave_count # map (\<lambda>(i, s). Slave_info i s) (enumerate 0 ss)"

text \<open>
  The state of one iteration of the loop: the variable \<^verbatim>\<open>master\<close> (\<^verbatim>\<open>None\<close> or the
  object), the number of calls of \<^verbatim>\<open>close()\<close> made on it so far, and the effects.
\<close>

record frame =
  master_var :: "master option"
  closed :: nat
  effects :: "effect list"

text \<open>
  Lines 74 to 94, the body of the \<^verbatim>\<open>try\<close>. The result is the frame at the exit and
  \<open>Inl e\<close> when the body raised \<open>e\<close>, \<open>Inr True\<close> when it reached
  \<^verbatim>\<open>return interface\<close>, \<open>Inr False\<close> when it fell through. Every statement of the body
  can raise: the constructor, \<^verbatim>\<open>open\<close>, \<^verbatim>\<open>config_init\<close>, the prints and \<^verbatim>\<open>close\<close>.
\<close>

definition try_body :: "console \<Rightarrow> stack \<Rightarrow> nat \<Rightarrow> string \<Rightarrow> frame \<times> (exn + bool)" where
  "try_body console pysoem k interface =
     (case pysoem k of
        Inl e \<Rightarrow>
          (\<lparr>master_var = None, closed = 0, effects = [Call k Master_new (Some e)]\<rparr>, Inl e)
      | Inr m \<Rightarrow>
          (let t1 = [Call k Master_new None] in
           case open_m m interface of
             Some e \<Rightarrow>
               (\<lparr>master_var = Some m, closed = 0,
                 effects = t1 @ [Call k (Master_open interface) (Some e)]\<rparr>, Inl e)
           | None \<Rightarrow>
               (let t2 = t1 @ [Call k (Master_open interface) None] in
                case config_init m of
                  Inl e \<Rightarrow>
                    (\<lparr>master_var = Some m, closed = 0,
                      effects = t2 @ [Call k Config_init (Some e)]\<rparr>, Inl e)
                | Inr slave_count \<Rightarrow>
                    (let t3 = t2 @ [Call k Config_init None] in
                     if slave_count > 0 then
                       (case print_lines console (report slave_count (slaves m)) of
                          (printed, Some e) \<Rightarrow>
                            (\<lparr>master_var = Some m, closed = 0, effects = t3 @ printed\<rparr>,
                             Inl e)
                        | (printed, None) \<Rightarrow>
                            (case close_m m 0 of
                               Some e \<Rightarrow>
                                 (\<lparr>master_var = Some m, closed = 1,
                                   effects = t3 @ printed @ [Call k Master_close (Some e)]\<rparr>,
                                  Inl e)
                             | None \<Rightarrow>
                                 (\<lparr>master_var = Some m, closed = 1,
                                   effects = t3 @ printed @ [Call k Master_close None]\<rparr>,
                                  Inr True)))
                     else
                       (case print_lines console [No_slaves] of
                          (printed, Some e) \<Rightarrow>
                            (\<lparr>master_var = Some m, closed = 0, effects = t3 @ printed\<rparr>,
                             Inl e)
                        | (printed, None) \<Rightarrow>
                            (case close_m m 0 of
                               Some e \<Rightarrow>
                                 (\<lparr>master_var = Some m, closed = 1,
                                   effects = t3 @ printed @ [Call k Master_close (Some e)]\<rparr>,
                                  Inl e)
                             | None \<Rightarrow>
                                 (\<lparr>master_var = Some m, closed = 1,
                                   effects = t3 @ printed @ [Call k Master_close None]\<rparr>,
                                  Inr False)))))))"

text \<open>
  Lines 96 to 102, the handler: the error is printed; when \<^verbatim>\<open>master\<close> is set,
  \<^verbatim>\<open>close()\<close> is called once more and whatever it raises is dropped. (A \<^verbatim>\<open>Master\<close>
  object is true in a condition: the class defines neither \<^verbatim>\<open>__bool__\<close> nor
  \<^verbatim>\<open>__len__\<close>.)
\<close>

definition except_handler :: "nat \<Rightarrow> frame \<Rightarrow> exn \<Rightarrow> effect list" where
  "except_handler k fr e =
     Print (Error_msg e) #
     (case master_var fr of
        None \<Rightarrow> []
      | Some m \<Rightarrow> [Call k Master_close (close_m m (closed fr))])"

text \<open>
  One iteration of the loop (lines 70 to 102): whether it returned, and its effects.
\<close>

definition attempt :: "console \<Rightarrow> stack \<Rightarrow> nat \<Rightarrow> string \<Rightarrow> bool \<times> effect list" where
  "attempt console pysoem k interface =
     (case try_body console pysoem k interface of
        (fr, Inr returned) \<Rightarrow> (returned, Print (Trying interface) # effects fr)
      | (fr, Inl e) \<Rightarrow>
          (False, Print (Trying interface) # effects fr @ except_handler k fr e))"

text \<open>
  Lines 69 to 105: the loop from candidate number \<open>k\<close> on, and the two statements after
  it. The result is the value returned (\<^verbatim>\<open>None\<close> or the interface) and the effects.
\<close>

fun for_loop ::
  "console \<Rightarrow> stack \<Rightarrow> nat \<Rightarrow> string list \<Rightarrow> string option \<times> effect list" where
  "for_loop console pysoem k [] = (None, [Print No_slaves_anywhere])"
| "for_loop console pysoem k (interface # rest) =
     (case attempt console pysoem k interface of
        (True, effs) \<Rightarrow> (Some interface, effs)
      | (False, effs) \<Rightarrow>
          (case for_loop console pysoem (Suc k) rest of
             (result, effs') \<Rightarrow> (result, effs @ effs')))"

text \<open>Lines 58 to 105, from the candidate list on.\<close>

definition probe :: "console \<Rightarrow> stack \<Rightarrow> string list \<Rightarrow> string option \<times> effect list" where
  "probe console pysoem interfaces =
     (let t0 = [Print Banner, Print (Found_interfaces interfaces)] in
      if interfaces = [] then (None, t0 @ [Print No_interfaces])
      else (case for_loop console pysoem 0 interfaces of
              (result, effs) \<Rightarrow> (result, t0 @ effs)))"

definition detect_ethercat_interface ::
  "platform \<Rightarrow> console \<Rightarrow> stack \<Rightarrow> string option \<times> effect list" where
  "detect_ethercat_interface p console pysoem =
     probe console pysoem (get_network_interfaces p)"




section \<open>Observations on a run\<close>

text \<open>
  The exception that ends an attempt before \<^verbatim>\<open>config_init()\<close> has returned: raised by
  \<^verbatim>\<open>pysoem.Master()\<close>, by \<^verbatim>\<open>open\<close> or by \<^verbatim>\<open>config_init\<close>.
\<close>

definition attempt_error :: "stack \<Rightarrow> nat \<Rightarrow> string \<Rightarrow> exn option" where
  "attempt_error pysoem k interface =
     (case pysoem k of
        Inl e \<Rightarrow> Some e
      | Inr m \<Rightarrow>
          (case open_m m interface of
             Some e \<Rightarrow> Some e
           | None \<Rightarrow> (case config_init m of Inl e \<Rightarrow> Some e | Inr c \<Rightarrow> None)))"

text \<open>The attempt reports at least one slave: \<^verbatim>\<open>config_init()\<close> returned a count above 0.\<close>

definition reports_slaves :: "stack \<Rightarrow> nat \<Rightarrow> string \<Rightarrow> bool" where
  "reports_slaves pysoem k interface =
     (case pysoem k of
        Inl e \<Rightarrow> False
      | Inr m \<Rightarrow>
          (case open_m m interface of
             Some e \<Rightarrow> False
           | None \<Rightarrow> (case config_init m of Inl e \<Rightarrow> False | Inr c \<Rightarrow> c > 0)))"

text \<open>
  The attempt reports at least one slave and yet does not reach \<^verbatim>\<open>return interface\<close>:
  a print of lines 81 to 87 or the \<^verbatim>\<open>close()\<close> of line 90 raised, inside the \<^verbatim>\<open>try\<close>.
\<close>

definition match_dropped :: "console \<Rightarrow> stack \<Rightarrow> nat \<Rightarrow> string \<Rightarrow> bool" where
  "match_dropped console pysoem k interface =
     (reports_slaves pysoem k interface \<and> \<not> fst (attempt console pysoem k interface))"

text \<open>
  The candidates attempted, by position, in the order of the attempts: every attempt
  starts with one call of \<^verbatim>\<open>pysoem.Master()\<close>.
\<close>

fun attempted :: "effect list \<Rightarrow> nat list" where
  "attempted [] = []"
| "attempted (Call k Master_new r # es) = k # attempted es"
| "attempted (e # es) = attempted es"


text \<open>
  The lines printed, the sessions passed to \<^verbatim>\<open>open\<close>, those passed to \<^verbatim>\<open>close\<close>, and
  those on which a call of \<^verbatim>\<open>close\<close> raised.
\<close>

fun prints :: "effect list \<Rightarrow> msg list" where
  "prints [] = []"
| "prints (Print m # es) = m # prints es"
| "prints (e # es) = prints es"

fun opens :: "effect list \<Rightarrow> nat list" where
  "opens [] = []"
| "opens (Call k (Master_open x) r # es) = k # opens es"
| "opens (e # es) = opens es"

fun closes :: "effect list \<Rightarrow> nat list" where
  "closes [] = []"
| "closes (Call k Master_close r # es) = k # closes es"
| "closes (e # es) = closes es"

fun raised_closes :: "effect list \<Rightarrow> nat list" where
  "raised_closes [] = []"
| "raised_closes (Call k Master_close (Some e) # es) = k # raised_closes es"
| "raised_closes (e # es) = raised_closes es"

text \<open>
  The discipline of sessions, checked along the effects of a run. A session is open
  from the call of \<^verbatim>\<open>open\<close> on it (whether or not the call raised: the handler
  releases such a session too) to the next call of \<^verbatim>\<open>close\<close> on it that returns; a
  call of \<^verbatim>\<open>close\<close> that raises releases nothing. The run is \<open>Violated\<close> when \<^verbatim>\<open>open\<close>
  is called while a session is open, or \<^verbatim>\<open>close\<close> is called on a session that is not
  the open one (so also when a released session is closed again).
\<close>

datatype session_state = Violated | Idle | Session_open nat

fun session_step :: "session_state \<Rightarrow> effect \<Rightarrow> session_state" where
  "session_step Violated e = Violated"
| "session_step st (Call k (Master_open x) r) = (if st = Idle then Session_open k else Violated)"
| "session_step st (Call k Master_close r) =
     (if st = Session_open k then (case r of None \<Rightarrow> Idle | Some e \<Rightarrow> Session_open k)
      else Violated)"
| "session_step st e = st"



section \<open>Example consoles, stacks and hosts\<close>

text \<open>A standard output that prints every line (UTF-8).\<close>

definition console_utf8 :: console where
  "console_utf8 m = None"

text \<open>
  A standard output with the ASCII encoding: the line with the check mark (line 81)
  raises, every other line is printed.
\<close>

definition console_ascii :: console where
  "console_ascii m =
     (case m of
        Found c \<Rightarrow> Some (Exception ''UnicodeEncodeError: ascii codec cannot encode U+2713'')
      | _ \<Rightarrow> None)"

text \<open>The slave of the first scenario of the specification.\<close>

definition motor1 :: slave where
  "motor1 = \<lparr>name = ''Motor1'', man = 0x000007D1, ident = 0x00002710\<rparr>"

text \<open>A master with one responding slave.\<close>

definition master_one_slave :: master where
  "master_one_slave =
     \<lparr>open_m = (\<lambda>interface. None), config_init = Inr 1, slaves = [motor1],
      close_m = (\<lambda>n. None)\<rparr>"

text \<open>A master whose \<^verbatim>\<open>open\<close> raises.\<close>

definition master_no_link :: master where
  "master_no_link =
     \<lparr>open_m = (\<lambda>interface. Some (Exception ''could not open interface'')),
      config_init = Inr 0, slaves = [], close_m = (\<lambda>n. None)\<rparr>"

text \<open>A master with one responding slave whose \<^verbatim>\<open>close\<close> raises at every call.\<close>

definition master_stuck :: master where
  "master_stuck =
     \<lparr>open_m = (\<lambda>interface. None), config_init = Inr 1, slaves = [motor1],
      close_m = (\<lambda>n. Some (Exception ''close failed''))\<rparr>"

text \<open>Every candidate has one slave.\<close>

definition stack_ok :: stack where
  "stack_ok k = Inr master_one_slave"

text \<open>The first candidate cannot be opened, every later one has one slave.\<close>

definition stack_scenario1 :: stack where
  "stack_scenario1 k = (if k = 0 then Inr master_no_link else Inr master_one_slave)"

text \<open>The first candidate has one slave and cannot be closed, no later one opens.\<close>

definition stack_stuck :: stack where
  "stack_stuck k = (if k = 0 then Inr master_stuck else Inr master_no_link)"

text \<open>
  The first candidate has one slave; the sessions of the later ones, were they ever
  attempted, could not be closed.
\<close>

definition stack_ok_then_stuck :: stack where
  "stack_ok_then_stuck k = (if k = 0 then Inr master_one_slave else Inr master_stuck)"

text \<open>A master that opens and finds no slave.\<close>

definition master_silent :: master where
  "master_silent =
     \<lparr>open_m = (\<lambda>interface. None), config_init = Inr 0, slaves = [],
      close_m = (\<lambda>n. None)\<rparr>"

definition stack_silent :: stack where
  "stack_silent k = Inr master_silent"

text \<open>\<^verbatim>\<open>pysoem.Master()\<close> raises at every call.\<close>

definition stack_no_master :: stack where
  "stack_no_master k = Inl (Exception ''cannot create master'')"

text \<open>A Linux host with a loopback, an Ethernet and a virtual interface.\<close>

definition host_linux :: platform where
  "host_linux =
     \<lparr>ip_link_show = Inr (CompletedProcess 0
        (''1: lo: <LOOPBACK,UP> mtu 65536 state UNKNOWN'' @ [CHR 0x0A] @
         ''    link/loopback 00:00:00:00:00:00'' @ [CHR 0x0A] @
         ''2: eth0: <BROADCAST,UP> mtu 1500 state UP'' @ [CHR 0x0A] @
         ''3: veth1a@if2: <BROADCAST,UP> mtu 1500 state UP'' @ [CHR 0x0A])),
      ifconfig = Inl (Exception ''No such file or directory: ifconfig'')\<rparr>"

text \<open>A Linux host with an Ethernet interface and three bridges.\<close>

definition host_bridges :: platform where
  "host_bridges =
     \<lparr>ip_link_show = Inr (CompletedProcess 0
        (''2: eth0: <BROADCAST,UP> mtu 1500 state UP'' @ [CHR 0x0A] @
         ''3: br0: <BROADCAST,UP> mtu 1500 state UP'' @ [CHR 0x0A] @
         ''4: docker0: <NO-CARRIER,UP> mtu 1500 state DOWN'' @ [CHR 0x0A] @
         ''5: virbr0: <NO-CARRIER,UP> mtu 1500 state DOWN'' @ [CHR 0x0A])),
      ifconfig = Inl (Exception ''No such file or directory: ifconfig'')\<rparr>"

text \<open>A host without the \<^verbatim>\<open>ip\<close> command: \<^verbatim>\<open>subprocess.run\<close> raises.\<close>

definition host_no_ip :: platform where
  "host_no_ip =
     \<lparr>ip_link_show = Inl (Exception ''No such file or directory: ip''),
      ifconfig = Inr (CompletedProcess 0 ''en0: flags=8863<UP,BROADCAST> mtu 1500'')\<rparr>"

text \<open>Both commands exist, and both fail with exit status 1 and no output.\<close>

definition host_both_fail :: platform where
  "host_both_fail =
     \<lparr>ip_link_show = Inr (CompletedProcess 1 []),
      ifconfig = Inr (CompletedProcess 1 [])\<rparr>"

text \<open>\<^verbatim>\<open>ip link show\<close> succeeds and lists nothing.\<close>

definition host_no_interfaces :: platform where
  "host_no_interfaces =
     \<lparr>ip_link_show = Inr (CompletedProcess 0 []),
      ifconfig = Inl (Exception ''No such file or directory: ifconfig'')\<rparr>"


section \<open>Lemmas on the observations\<close>

lemma attempted_append: "attempted (a @ b) = attempted a @ attempted b"
  by (induction a rule: attempted.induct) simp_all

lemma prints_append: "prints (a @ b) = prints a @ prints b"
  by (induction a rule: prints.induct) simp_all

lemma opens_append: "opens (a @ b) = opens a @ opens b"
  by (induction a rule: opens.induct) simp_all

lemma closes_append: "closes (a @ b) = closes a @ closes b"
  by (induction a rule: closes.induct) simp_all

lemma raised_closes_append: "raised_closes (a @ b) = raised_closes a @ raised_closes b"
  by (induction a rule: raised_closes.induct) simp_all

lemma session_step_Print: "session_step st (Print m) = st"
  by (cases st) simp_all

text \<open>Printing calls nothing; when no line raises, every line is printed.\<close>

lemma attempted_print_lines: "attempted (fst (print_lines c ms)) = []"
  by (induction ms) (auto split: option.splits prod.splits)

lemma opens_print_lines: "opens (fst (print_lines c ms)) = []"
  by (induction ms) (auto split: option.splits prod.splits)

lemma closes_print_lines: "closes (fst (print_lines c ms)) = []"
  by (induction ms) (auto split: option.splits prod.splits)

lemma raised_closes_print_lines: "raised_closes (fst (print_lines c ms)) = []"
  by (induction ms) (auto split: option.splits prod.splits)

lemma step_print_lines: "foldl session_step st (fst (print_lines c ms)) = st"
  by (induction ms arbitrary: st)
    (auto simp add: session_step_Print split: option.splits prod.splits)

lemma print_lines_all: "snd (print_lines c ms) = None \<Longrightarrow> fst (print_lines c ms) = map Print ms"
  by (induction ms) (auto split: option.splits prod.splits)

lemmas print_lines_calls = attempted_print_lines opens_print_lines closes_print_lines
  raised_closes_print_lines step_print_lines


section \<open>One attempt\<close>

lemma try_body_cases:
  "try_body c s k x =
     (case s k of
        Inl e \<Rightarrow>
          (\<lparr>master_var = None, closed = 0, effects = [Call k Master_new (Some e)]\<rparr>, Inl e)
      | Inr m \<Rightarrow>
          (case open_m m x of
             Some e \<Rightarrow>
               (\<lparr>master_var = Some m, closed = 0,
                 effects = [Call k Master_new None, Call k (Master_open x) (Some e)]\<rparr>, Inl e)
           | None \<Rightarrow>
               (case config_init m of
                  Inl e \<Rightarrow>
                    (\<lparr>master_var = Some m, closed = 0,
                      effects = [Call k Master_new None, Call k (Master_open x) None,
                        Call k Config_init (Some e)]\<rparr>, Inl e)
                | Inr n \<Rightarrow>
                    (let t3 = [Call k Master_new None, Call k (Master_open x) None,
                           Call k Config_init None];
                         pr = print_lines c (if n > 0 then report n (slaves m) else [No_slaves])
                     in case snd pr of
                          Some e \<Rightarrow>
                            (\<lparr>master_var = Some m, closed = 0, effects = t3 @ fst pr\<rparr>, Inl e)
                        | None \<Rightarrow>
                            (case close_m m 0 of
                               Some e \<Rightarrow>
                                 (\<lparr>master_var = Some m, closed = 1,
                                   effects = t3 @ fst pr @ [Call k Master_close (Some e)]\<rparr>,
                                  Inl e)
                             | None \<Rightarrow>
                                 (\<lparr>master_var = Some m, closed = 1,
                                   effects = t3 @ fst pr @ [Call k Master_close None]\<rparr>,
                                  Inr (n > 0)))))))"
  by (simp add: try_body_def Let_def split: sum.splits option.splits prod.splits)

text \<open>An attempt that returns has reported a slave.\<close>

lemma returns_reports: "fst (attempt c s k x) \<Longrightarrow> reports_slaves s k x"
  by (auto simp: attempt_def try_body_cases reports_slaves_def Let_def
      split: sum.splits option.splits)

lemma fst_attempt:
  "fst (attempt c s k x) = (reports_slaves s k x \<and> \<not> match_dropped c s k x)"
  using returns_reports [of c s k x] by (auto simp: match_dropped_def)

lemma attempted_attempt: "attempted (snd (attempt c s k x)) = [k]"
  by (auto simp: attempt_def try_body_cases except_handler_def Let_def attempted_append
      print_lines_calls split: sum.splits option.splits)


lemma attempt_returns:
  "fst (attempt c s k x) \<Longrightarrow>
   \<exists>m n. s k = Inr m \<and> open_m m x = None \<and> config_init m = Inr n \<and> 0 < n \<and>
     close_m m 0 = None \<and>
     snd (attempt c s k x) =
       [Print (Trying x), Call k Master_new None, Call k (Master_open x) None,
        Call k Config_init None] @ map Print (report n (slaves m)) @
       [Call k Master_close None]"
  by (auto simp: attempt_def try_body_cases Let_def print_lines_all
      split: sum.splits option.splits if_splits)


text \<open>
  What the \<^verbatim>\<open>close()\<close> of the handler raises changes neither whether the attempt
  returns nor what it prints.
\<close>

lemma attempt_defensive_close:
  "s k = Inr m \<Longrightarrow> s' k = Inr (m\<lparr>close_m := g\<rparr>) \<Longrightarrow>
   (attempt_error s k x = None \<longrightarrow> g 0 = close_m m 0) \<Longrightarrow>
   fst (attempt c s' k x) = fst (attempt c s k x) \<and>
   prints (snd (attempt c s' k x)) = prints (snd (attempt c s k x))"
  by (auto simp: attempt_def try_body_cases except_handler_def attempt_error_def Let_def
      prints_append split: sum.splits option.splits)

lemma attempt_cong: "s' k = s k \<Longrightarrow> attempt c s' k x = attempt c s k x"
  by (simp add: attempt_def try_body_def)

lemma closes_attempt:
  "j \<in> set (closes (snd (attempt c s k x))) \<Longrightarrow> j = k \<and> (\<exists>m. s k = Inr m)"
  by (auto simp: attempt_def try_body_cases except_handler_def Let_def closes_append
      print_lines_calls split: sum.splits option.splits if_splits)


section \<open>The loop\<close>

lemma for_loop_Cons_True:
  "fst (attempt c s k x) \<Longrightarrow> for_loop c s k (x # xs) = (Some x, snd (attempt c s k x))"
  by (cases "attempt c s k x") auto

lemma for_loop_Cons_False:
  "\<not> fst (attempt c s k x) \<Longrightarrow>
   for_loop c s k (x # xs) =
     (fst (for_loop c s (Suc k) xs), snd (attempt c s k x) @ snd (for_loop c s (Suc k) xs))"
  by (cases "attempt c s k x") (auto split: prod.splits)

declare for_loop.simps(2) [simp del]

lemma upt_shift: "k # [Suc k..<Suc k + n] = [k..<k + Suc n]"
  by (simp add: upt_conv_Cons)

text \<open>The first attempt that returns decides the result, and is the last attempt.\<close>

lemma for_loop_first:
  "i < length xs \<Longrightarrow> fst (attempt c s (k + i) (xs ! i)) \<Longrightarrow>
   (\<forall>j<i. \<not> fst (attempt c s (k + j) (xs ! j))) \<Longrightarrow>
   fst (for_loop c s k xs) = Some (xs ! i) \<and>
   attempted (snd (for_loop c s k xs)) = [k..<k + Suc i]"
proof (induction xs arbitrary: k i)
  case Nil
  then show ?case by simp
next
  case (Cons x xs)
  show ?case
  proof (cases i)
    case 0
    with Cons.prems show ?thesis
      by (simp add: for_loop_Cons_True attempted_attempt)
  next
    case (Suc i')
    from Cons.prems(3) Suc have nf: "\<not> fst (attempt c s k x)"
      by (metis add.right_neutral nth_Cons_0 zero_less_Suc)
    have a: "i' < length xs" using Cons.prems(1) Suc by simp
    have b: "fst (attempt c s (Suc k + i') (xs ! i'))" using Cons.prems(2) Suc by simp
    have d: "\<forall>j<i'. \<not> fst (attempt c s (Suc k + j) (xs ! j))"
    proof (intro allI impI)
      fix j assume "j < i'"
      then have "Suc j < i" using Suc by simp
      with Cons.prems(3) have "\<not> fst (attempt c s (k + Suc j) ((x # xs) ! Suc j))" by blast
      then show "\<not> fst (attempt c s (Suc k + j) (xs ! j))" by simp
    qed
    from Cons.IH [OF a b d]
    have ih: "fst (for_loop c s (Suc k) xs) = Some (xs ! i')"
      "attempted (snd (for_loop c s (Suc k) xs)) = [Suc k..<Suc k + Suc i']" by simp_all
    have "attempted (snd (for_loop c s k (x # xs))) = k # [Suc k..<Suc k + Suc i']"
      using nf ih(2) by (simp add: for_loop_Cons_False attempted_append attempted_attempt)
    also have "\<dots> = [k..<k + Suc i]" unfolding Suc by (rule upt_shift)
    finally show ?thesis
      using nf ih(1) Suc by (simp add: for_loop_Cons_False)
  qed
qed

text \<open>When no attempt returns, every candidate is attempted and nothing is selected.\<close>

lemma for_loop_none:
  "(\<forall>j<length xs. \<not> fst (attempt c s (k + j) (xs ! j))) \<Longrightarrow>
   fst (for_loop c s k xs) = None \<and>
   attempted (snd (for_loop c s k xs)) = [k..<k + length xs]"
proof (induction xs arbitrary: k)
  case Nil
  then show ?case by simp
next
  case (Cons x xs)
  from Cons.prems have nf: "\<not> fst (attempt c s k x)" by force
  have d: "\<forall>j<length xs. \<not> fst (attempt c s (Suc k + j) (xs ! j))"
  proof (intro allI impI)
    fix j assume "j < length xs"
    then have "Suc j < length (x # xs)" by simp
    with Cons.prems have "\<not> fst (attempt c s (k + Suc j) ((x # xs) ! Suc j))" by blast
    then show "\<not> fst (attempt c s (Suc k + j) (xs ! j))" by simp
  qed
  from Cons.IH [OF d]
  have ih: "fst (for_loop c s (Suc k) xs) = None"
    "attempted (snd (for_loop c s (Suc k) xs)) = [Suc k..<Suc k + length xs]" by simp_all
  have "attempted (snd (for_loop c s k (x # xs))) = k # [Suc k..<Suc k + length xs]"
    using nf ih(2) by (simp add: for_loop_Cons_False attempted_append attempted_attempt)
  also have "\<dots> = [k..<k + length (x # xs)]" using upt_shift [of k "length xs"] by simp
  finally show ?case
    using nf ih(1) by (simp add: for_loop_Cons_False)
qed

lemma first_position:
  "(\<exists>i<length xs. P i) \<Longrightarrow> \<exists>i<length xs. P i \<and> (\<forall>j<i. \<not> P j)"
proof -
  assume "\<exists>i<length xs. P i"
  then obtain i where i: "i < length xs" "P i" by blast
  let ?m = "LEAST i. P i"
  have "P ?m" using i(2) by (rule LeastI)
  moreover have "?m \<le> i" using i(2) by (rule Least_le)
  moreover have "\<forall>j<?m. \<not> P j" using not_less_Least by blast
  ultimately show ?thesis using i(1) by (meson le_less_trans)
qed

text \<open>Every run of the loop is of one of these two kinds.\<close>

lemma for_loop_cases:
  obtains (none) "\<forall>j<length xs. \<not> fst (attempt c s (k + j) (xs ! j))"
      "fst (for_loop c s k xs) = None"
      "attempted (snd (for_loop c s k xs)) = [k..<k + length xs]"
  | (some) i where "i < length xs" "fst (attempt c s (k + i) (xs ! i))"
      "\<forall>j<i. \<not> fst (attempt c s (k + j) (xs ! j))"
      "fst (for_loop c s k xs) = Some (xs ! i)"
      "attempted (snd (for_loop c s k xs)) = [k..<k + Suc i]"
proof (cases "\<exists>i<length xs. fst (attempt c s (k + i) (xs ! i))")
  case True
  from first_position [of xs "\<lambda>i. fst (attempt c s (k + i) (xs ! i))", OF True]
  obtain i where i: "i < length xs" "fst (attempt c s (k + i) (xs ! i))"
    "\<forall>j<i. \<not> fst (attempt c s (k + j) (xs ! j))" by blast
  from for_loop_first [OF i] i show ?thesis by (auto intro: some)
next
  case False
  then have n: "\<forall>j<length xs. \<not> fst (attempt c s (k + j) (xs ! j))" by blast
  from for_loop_none [OF n] n show ?thesis by (auto intro: none)
qed


text \<open>The effects of a run that selects a candidate end with those of the last attempt.\<close>

lemma for_loop_first_effects:
  "i < length xs \<Longrightarrow> fst (attempt c s (k + i) (xs ! i)) \<Longrightarrow>
   (\<forall>j<i. \<not> fst (attempt c s (k + j) (xs ! j))) \<Longrightarrow>
   \<exists>pre. snd (for_loop c s k xs) = pre @ snd (attempt c s (k + i) (xs ! i))"
proof (induction xs arbitrary: k i)
  case Nil
  then show ?case by simp
next
  case (Cons x xs)
  show ?case
  proof (cases i)
    case 0
    with Cons.prems show ?thesis
      by (simp add: for_loop_Cons_True)
  next
    case (Suc i')
    from Cons.prems(3) Suc have nf: "\<not> fst (attempt c s k x)"
      by (metis add.right_neutral nth_Cons_0 zero_less_Suc)
    have a: "i' < length xs" using Cons.prems(1) Suc by simp
    have b: "fst (attempt c s (Suc k + i') (xs ! i'))" using Cons.prems(2) Suc by simp
    have d: "\<forall>j<i'. \<not> fst (attempt c s (Suc k + j) (xs ! j))"
    proof (intro allI impI)
      fix j assume "j < i'"
      then have "Suc j < i" using Suc by simp
      with Cons.prems(3) have "\<not> fst (attempt c s (k + Suc j) ((x # xs) ! Suc j))" by blast
      then show "\<not> fst (attempt c s (Suc k + j) (xs ! j))" by simp
    qed
    from Cons.IH [OF a b d] obtain pre where
      "snd (for_loop c s (Suc k) xs) = pre @ snd (attempt c s (Suc k + i') (xs ! i'))" by blast
    then have "snd (for_loop c s k (x # xs)) =
        (snd (attempt c s k x) @ pre) @ snd (attempt c s (k + i) ((x # xs) ! i))"
      using nf Suc by (simp add: for_loop_Cons_False)
    then show ?thesis by blast
  qed
qed

text \<open>
  Two stacks whose attempts return alike and print alike give the same result, the same
  output and the same attempts.
\<close>

lemma for_loop_similar:
  "(\<forall>j<length xs.
      fst (attempt c s' (k + j) (xs ! j)) = fst (attempt c s (k + j) (xs ! j)) \<and>
      prints (snd (attempt c s' (k + j) (xs ! j))) =
        prints (snd (attempt c s (k + j) (xs ! j)))) \<Longrightarrow>
   fst (for_loop c s' k xs) = fst (for_loop c s k xs) \<and>
   prints (snd (for_loop c s' k xs)) = prints (snd (for_loop c s k xs)) \<and>
   attempted (snd (for_loop c s' k xs)) = attempted (snd (for_loop c s k xs))"
proof (induction xs arbitrary: k)
  case Nil
  then show ?case by simp
next
  case (Cons x xs)
  from Cons.prems have h: "fst (attempt c s' k x) = fst (attempt c s k x)"
    "prints (snd (attempt c s' k x)) = prints (snd (attempt c s k x))" by force+
  have d: "\<forall>j<length xs.
      fst (attempt c s' (Suc k + j) (xs ! j)) = fst (attempt c s (Suc k + j) (xs ! j)) \<and>
      prints (snd (attempt c s' (Suc k + j) (xs ! j))) =
        prints (snd (attempt c s (Suc k + j) (xs ! j)))"
  proof (intro allI impI)
    fix j assume "j < length xs"
    then have "Suc j < length (x # xs)" by simp
    with Cons.prems have
      "fst (attempt c s' (k + Suc j) ((x # xs) ! Suc j)) =
         fst (attempt c s (k + Suc j) ((x # xs) ! Suc j)) \<and>
       prints (snd (attempt c s' (k + Suc j) ((x # xs) ! Suc j))) =
         prints (snd (attempt c s (k + Suc j) ((x # xs) ! Suc j)))" by blast
    then show
      "fst (attempt c s' (Suc k + j) (xs ! j)) = fst (attempt c s (Suc k + j) (xs ! j)) \<and>
       prints (snd (attempt c s' (Suc k + j) (xs ! j))) =
         prints (snd (attempt c s (Suc k + j) (xs ! j)))" by simp
  qed
  note ih = Cons.IH [OF d]
  show ?case
  proof (cases "fst (attempt c s k x)")
    case True
    with h show ?thesis by (simp add: for_loop_Cons_True attempted_attempt)
  next
    case False
    with h ih show ?thesis
      by (simp add: for_loop_Cons_False prints_append attempted_append attempted_attempt)
  qed
qed

text \<open>\<^verbatim>\<open>close()\<close> is only ever called on an object that was constructed.\<close>

lemma closes_for_loop:
  "j \<in> set (closes (snd (for_loop c s k xs))) \<Longrightarrow> \<exists>m. s j = Inr m"
proof (induction xs arbitrary: k)
  case Nil
  then show ?case by simp
next
  case (Cons x xs)
  show ?case
  proof (cases "fst (attempt c s k x)")
    case True
    with Cons.prems show ?thesis
      using closes_attempt [of j c s k x] by (auto simp add: for_loop_Cons_True)
  next
    case False
    with Cons.prems Cons.IH [of "Suc k"] show ?thesis
      using closes_attempt [of j c s k x]
      by (auto simp add: for_loop_Cons_False closes_append)
  qed
qed


section \<open>The probe\<close>

lemma probe_Nil:
  "probe c s [] = (None, [Print Banner, Print (Found_interfaces []), Print No_interfaces])"
  by (simp add: probe_def)

lemma fst_probe: "fst (probe c s xs) = fst (for_loop c s 0 xs)"
  by (cases xs) (simp_all add: probe_def split: prod.splits)

lemma snd_probe:
  "xs \<noteq> [] \<Longrightarrow>
   snd (probe c s xs) = [Print Banner, Print (Found_interfaces xs)] @ snd (for_loop c s 0 xs)"
  by (simp add: probe_def split: prod.splits)

text \<open>
  The probe in full: nothing is selected when no attempt returns, and otherwise the
  first candidate whose attempt returns is selected and is the last one attempted.
\<close>

lemma probe_cases:
  obtains (none) "\<forall>j<length xs. \<not> fst (attempt c s j (xs ! j))"
      "fst (probe c s xs) = None"
      "attempted (snd (probe c s xs)) = [0..<length xs]"
  | (some) i where "i < length xs" "fst (attempt c s i (xs ! i))"
      "\<forall>j<i. \<not> fst (attempt c s j (xs ! j))"
      "fst (probe c s xs) = Some (xs ! i)"
      "attempted (snd (probe c s xs)) = [0..<Suc i]"
proof (cases "xs = []")
  case True
  then show ?thesis by (auto intro: none simp add: probe_Nil)
next
  case ne: False
  show ?thesis
  proof (cases rule: for_loop_cases [of xs c s 0])
    case none: none
    then show ?thesis
      using that(1) by (simp add: fst_probe snd_probe [OF ne])
  next
    case (some i)
    then show ?thesis
      using that(2) [of i] by (simp add: fst_probe snd_probe [OF ne])
  qed
qed


section \<open>The interface source\<close>

lemma set_parse_lines: "set (parse_lines f ls) = (\<Union>l\<in>set ls. set (f l))"
  by (induction ls) auto

lemma ip_line_filtered:
  "x \<in> set (ip_line l) \<Longrightarrow> \<not> startswith x ''lo'' \<and> \<not> startswith x ''veth''"
  by (auto simp: ip_line_def Let_def split: if_splits)

text \<open>A name that starts with \<^verbatim>\<open>en\<close> or \<^verbatim>\<open>eth\<close> starts neither with \<^verbatim>\<open>lo\<close> nor with \<^verbatim>\<open>veth\<close>.\<close>

lemma en_not_skipped:
  "startswith x ''en'' \<or> startswith x ''eth'' \<Longrightarrow>
   \<not> startswith x ''lo'' \<and> \<not> startswith x ''veth''"
  by (cases x) (auto simp: startswith_def)

lemma ifconfig_line_name:
  assumes "x \<in> set (ifconfig_line l)"
  shows "startswith x ''en'' \<or> startswith x ''eth''"
proof (cases "split CHR '':'' l")
  case Nil
  then have "ifconfig_line l = []" by (simp add: ifconfig_line_def)
  with assms show ?thesis by simp
next
  case (Cons iface rest)
  show ?thesis
  proof (cases "startswith iface ''en'' \<or> startswith iface ''eth''")
    case True
    have "ifconfig_line l = [] \<or> ifconfig_line l = [iface]"
      using Cons by (simp add: ifconfig_line_def)
    with assms have "x = iface" by auto
    with True show ?thesis by simp
  next
    case False
    then have "ifconfig_line l = []" using Cons by (simp add: ifconfig_line_def)
    with assms show ?thesis by simp
  qed
qed

lemma ifconfig_line_filtered:
  "x \<in> set (ifconfig_line l) \<Longrightarrow> \<not> startswith x ''lo'' \<and> \<not> startswith x ''veth''"
  by (rule en_not_skipped) (rule ifconfig_line_name)

lemma fallback_filtered:
  "x \<in> set fallback \<Longrightarrow> \<not> startswith x ''lo'' \<and> \<not> startswith x ''veth''"
  by (auto simp: fallback_def startswith_def)


section \<open>The examples, evaluated\<close>

lemmas examples_defs = stack_ok_def stack_scenario1_def stack_stuck_def stack_silent_def
  stack_no_master_def stack_ok_then_stuck_def master_one_slave_def master_no_link_def master_stuck_def
  master_silent_def console_utf8_def console_ascii_def

lemmas run_defs = probe_def for_loop.simps attempt_def try_body_def except_handler_def
  report_def

lemma host_linux_interfaces: "get_network_interfaces host_linux = [''eth0'']"
  by code_simp

lemma host_bridges_interfaces:
  "get_network_interfaces host_bridges = [''eth0'', ''br0'', ''docker0'', ''virbr0'']"
  by code_simp

lemma host_no_interfaces_interfaces: "get_network_interfaces host_no_interfaces = []"
  by code_simp

lemma host_both_fail_interfaces: "get_network_interfaces host_both_fail = []"
  by code_simp

text \<open>The first scenario of the specification, and its effects in full.\<close>

lemma scenario1_run:
  "probe console_utf8 stack_scenario1 [''eth0'', ''eth1''] =
     (Some ''eth1'',
      [Print Banner, Print (Found_interfaces [''eth0'', ''eth1'']),
       Print (Trying ''eth0''), Call 0 Master_new None,
       Call 0 (Master_open ''eth0'') (Some (Exception ''could not open interface'')),
       Print (Error_msg (Exception ''could not open interface'')),
       Call 0 Master_close None,
       Print (Trying ''eth1''), Call 1 Master_new None,
       Call 1 (Master_open ''eth1'') None, Call 1 Config_init None,
       Print (Found 1), Print (Slave_info 0 motor1), Call 1 Master_close None])"
  by (simp add: run_defs examples_defs)

text \<open>
  Two candidates with one slave each, on a standard output that cannot encode the
  check mark: the print of line 81 raises in both attempts, the handler prints the
  error and closes the session, and nothing is selected.
\<close>

lemma ascii_run:
  "probe console_ascii stack_ok [''eth0'', ''eth1''] =
     (None,
      [Print Banner, Print (Found_interfaces [''eth0'', ''eth1'']),
       Print (Trying ''eth0''), Call 0 Master_new None,
       Call 0 (Master_open ''eth0'') None, Call 0 Config_init None,
       Print (Error_msg (Exception ''UnicodeEncodeError: ascii codec cannot encode U+2713'')),
       Call 0 Master_close None,
       Print (Trying ''eth1''), Call 1 Master_new None,
       Call 1 (Master_open ''eth1'') None, Call 1 Config_init None,
       Print (Error_msg (Exception ''UnicodeEncodeError: ascii codec cannot encode U+2713'')),
       Call 1 Master_close None,
       Print No_slaves_anywhere])"
  by (simp add: run_defs examples_defs)

text \<open>The same standard output and one candidate.\<close>

lemma ascii_run_single:
  "probe console_ascii stack_ok [''eth0''] =
     (None,
      [Print Banner, Print (Found_interfaces [''eth0'']),
       Print (Trying ''eth0''), Call 0 Master_new None,
       Call 0 (Master_open ''eth0'') None, Call 0 Config_init None,
       Print (Error_msg (Exception ''UnicodeEncodeError: ascii codec cannot encode U+2713'')),
       Call 0 Master_close None,
       Print No_slaves_anywhere])"
  by (simp add: run_defs examples_defs)


lemma reports_slaves_ok: "reports_slaves stack_ok k x"
  by (simp add: reports_slaves_def examples_defs)


section \<open>Sessions are released\<close>



text \<open>
  Whatever raises, no session is left without a call of \<^verbatim>\<open>close\<close>: each object is passed
  to \<^verbatim>\<open>open\<close> at most once, to \<^verbatim>\<open>close\<close> at least as often as to \<^verbatim>\<open>open\<close> and at most
  twice, and twice only when a call of \<^verbatim>\<open>close\<close> on it raised.
\<close>

lemma count_closes_attempt:
  "count_list (closes (snd (attempt c s k x))) j \<le> 2 \<and>
   (j \<noteq> k \<longrightarrow> count_list (closes (snd (attempt c s k x))) j = 0) \<and>
   (j \<noteq> k \<longrightarrow> count_list (opens (snd (attempt c s k x))) j = 0) \<and>
   count_list (opens (snd (attempt c s k x))) j \<le>
     count_list (closes (snd (attempt c s k x))) j \<and>
   count_list (opens (snd (attempt c s k x))) j \<le> 1 \<and>
   (count_list (closes (snd (attempt c s k x))) j = 2 \<longrightarrow>
      j \<in> set (raised_closes (snd (attempt c s k x))))"
  by (auto simp: attempt_def try_body_cases except_handler_def Let_def closes_append
      opens_append raised_closes_append print_lines_calls
      split: sum.splits option.splits)

lemma count_closes_for_loop:
  "(j < k \<longrightarrow> count_list (closes (snd (for_loop c s k xs))) j = 0 \<and>
      count_list (opens (snd (for_loop c s k xs))) j = 0) \<and>
   count_list (closes (snd (for_loop c s k xs))) j \<le> 2 \<and>
   count_list (opens (snd (for_loop c s k xs))) j \<le> 1 \<and>
   count_list (opens (snd (for_loop c s k xs))) j \<le>
     count_list (closes (snd (for_loop c s k xs))) j \<and>
   (count_list (closes (snd (for_loop c s k xs))) j = 2 \<longrightarrow>
      j \<in> set (raised_closes (snd (for_loop c s k xs))))"
proof (induction xs arbitrary: k)
  case Nil
  then show ?case by simp
next
  case (Cons x xs)
  note a = count_closes_attempt [of c s k x j]
  note ih = Cons.IH [of "Suc k"]
  show ?case
  proof (cases "fst (attempt c s k x)")
    case True
    with a show ?thesis
      by (cases "j = k") (auto simp add: for_loop_Cons_True)
  next
    case False
    show ?thesis
    proof (cases "j = k")
      case True
      with a ih False show ?thesis
        by (auto simp add: for_loop_Cons_False closes_append opens_append
            raised_closes_append)
    next
      case ne: False
      with a ih False show ?thesis
        by (auto simp add: for_loop_Cons_False closes_append opens_append
            raised_closes_append)
    qed
  qed
qed

lemma session_always_released:
  "count_list (opens (snd (probe c s xs))) j \<le> 1 \<and>
   count_list (opens (snd (probe c s xs))) j \<le> count_list (closes (snd (probe c s xs))) j \<and>
   count_list (closes (snd (probe c s xs))) j \<le> 2 \<and>
   (count_list (closes (snd (probe c s xs))) j = 2 \<longrightarrow>
      j \<in> set (raised_closes (snd (probe c s xs))))"
proof (cases "xs = []")
  case True
  then show ?thesis by (simp add: probe_Nil)
next
  case False
  with count_closes_for_loop [of j 0 c s xs] show ?thesis
    by (simp add: snd_probe)
qed


section \<open>The first match wins\<close>

text \<open>
  The candidates are attempted in list order, each at most once, from the first on
  without a gap. If the candidate at position \<open>i\<close> is the first to report at least one
  slave, and nothing raises in its attempt after \<^verbatim>\<open>config_init()\<close> returned, the probe
  selects that candidate and attempts no candidate at a position greater than \<open>i\<close>.
\<close>

lemma first_match_selected:
  "(\<exists>n\<le>length interfaces. attempted (snd (probe console pysoem interfaces)) = [0..<n]) \<and>
   (i < length interfaces \<and> reports_slaves pysoem i (interfaces ! i) \<and>
    (\<forall>j<i. \<not> reports_slaves pysoem j (interfaces ! j)) \<and>
    \<not> match_dropped console pysoem i (interfaces ! i) \<longrightarrow>
      fst (probe console pysoem interfaces) = Some (interfaces ! i) \<and>
      attempted (snd (probe console pysoem interfaces)) = [0..<Suc i])"
proof (rule conjI)
  show "\<exists>n\<le>length interfaces. attempted (snd (probe console pysoem interfaces)) = [0..<n]"
  proof (cases rule: probe_cases [of interfaces console pysoem])
    case none
    then show ?thesis by blast
  next
    case (some i')
    then have "Suc i' \<le> length interfaces" by simp
    with some(5) show ?thesis by blast
  qed
next
  show "i < length interfaces \<and> reports_slaves pysoem i (interfaces ! i) \<and>
    (\<forall>j<i. \<not> reports_slaves pysoem j (interfaces ! j)) \<and>
    \<not> match_dropped console pysoem i (interfaces ! i) \<longrightarrow>
      fst (probe console pysoem interfaces) = Some (interfaces ! i) \<and>
      attempted (snd (probe console pysoem interfaces)) = [0..<Suc i]"
  proof
    assume h: "i < length interfaces \<and> reports_slaves pysoem i (interfaces ! i) \<and>
      (\<forall>j<i. \<not> reports_slaves pysoem j (interfaces ! j)) \<and>
      \<not> match_dropped console pysoem i (interfaces ! i)"
    then have a: "i < length interfaces" by simp
    then have ne: "interfaces \<noteq> []" by auto
    have b: "fst (attempt console pysoem (0 + i) (interfaces ! i))"
      using h by (simp add: fst_attempt)
    have d: "\<forall>j<i. \<not> fst (attempt console pysoem (0 + j) (interfaces ! j))"
      using h by (simp add: fst_attempt)
    from for_loop_first [OF a b d]
    show "fst (probe console pysoem interfaces) = Some (interfaces ! i) \<and>
      attempted (snd (probe console pysoem interfaces)) = [0..<Suc i]"
      by (simp add: fst_probe snd_probe [OF ne])
  qed
qed

text \<open>
  C2. The first candidate to report a slave is not selected when a statement between
  \<^verbatim>\<open>config_init()\<close> and \<^verbatim>\<open>return interface\<close> raises: these statements stand inside the
  \<^verbatim>\<open>try\<close>, so the handler takes the match for an error and the scan goes on. On a
  standard output that cannot encode the check mark of line 81, with two candidates
  that each have one slave and whose \<^verbatim>\<open>close()\<close> returns: the first candidate reports
  a slave and is the first to do so, nothing is selected, and the second candidate is
  attempted.
\<close>

theorem first_match_dropped_on_ascii_console:
  "reports_slaves stack_ok 0 ([''eth0'', ''eth1''] ! 0) \<and>
   raised_closes (snd (probe console_ascii stack_ok [''eth0'', ''eth1''])) = [] \<and>
   fst (probe console_ascii stack_ok [''eth0'', ''eth1'']) = None \<and>
   attempted (snd (probe console_ascii stack_ok [''eth0'', ''eth1''])) = [0, 1]"
  by (simp add: ascii_run reports_slaves_ok)


section \<open>The number of attempts\<close>





section \<open>What a result implies\<close>

text \<open>
  A selected interface is returned only when its attempt reported at least one slave:
  \<^verbatim>\<open>config_init()\<close> returned a count above 0, and the run ends with the count printed,
  the entries of \<^verbatim>\<open>master.slaves\<close> printed and the session closed. When nothing is
  selected, no attempt of the run returned: each attempt that reported a slave was
  ended by an exception.
\<close>

lemma selected_reported_slaves:
  "(\<forall>x. fst (probe console pysoem interfaces) = Some x \<longrightarrow>
      (\<exists>i m n pre. i < length interfaces \<and> interfaces ! i = x \<and> pysoem i = Inr m \<and>
         config_init m = Inr n \<and> 0 < n \<and>
         snd (probe console pysoem interfaces) =
           pre @ map Print (report n (slaves m)) @ [Call i Master_close None])) \<and>
   (fst (probe console pysoem interfaces) = None \<longrightarrow>
      (\<forall>i<length interfaces. reports_slaves pysoem i (interfaces ! i) \<longrightarrow>
         match_dropped console pysoem i (interfaces ! i)))"
proof (cases rule: probe_cases [of interfaces console pysoem])
  case none
  then show ?thesis by (simp add: match_dropped_def)
next
  case (some i)
  then have ne: "interfaces \<noteq> []" by auto
  from for_loop_first_effects [of i interfaces console pysoem 0] some(1,2,3) obtain pre where
    pre: "snd (for_loop console pysoem 0 interfaces) =
      pre @ snd (attempt console pysoem i (interfaces ! i))"
    by auto
  from attempt_returns [OF some(2)] obtain m n where
    mn: "pysoem i = Inr m" "config_init m = Inr n" "0 < n"
    "snd (attempt console pysoem i (interfaces ! i)) =
       [Print (Trying (interfaces ! i)), Call i Master_new None,
        Call i (Master_open (interfaces ! i)) None,
        Call i Config_init None] @ map Print (report n (slaves m)) @
       [Call i Master_close None]"
    by auto
  let ?pre = "[Print Banner, Print (Found_interfaces interfaces)] @ pre @
      [Print (Trying (interfaces ! i)), Call i Master_new None,
       Call i (Master_open (interfaces ! i)) None, Call i Config_init None]"
  have "snd (probe console pysoem interfaces) =
      ?pre @ map Print (report n (slaves m)) @ [Call i Master_close None]"
    using pre mn(4) by (simp add: snd_probe [OF ne])
  then show ?thesis
    using some(1,4) mn(1,2,3) by auto
qed

text \<open>
  C4. Nothing selected does not imply that no attempt reported a slave, when a
  statement between \<^verbatim>\<open>config_init()\<close> and \<^verbatim>\<open>return interface\<close> raises. On a standard
  output that cannot encode the check mark of line 81, with one candidate that has one
  slave: the attempt reports a slave, no call of \<^verbatim>\<open>close\<close> raises, and nothing is
  selected.
\<close>

theorem not_found_although_slave_reported:
  "reports_slaves stack_ok 0 ([''eth0''] ! 0) \<and>
   raised_closes (snd (probe console_ascii stack_ok [''eth0''])) = [] \<and>
   fst (probe console_ascii stack_ok [''eth0'']) = None"
  by (simp add: ascii_run_single reports_slaves_ok)


section \<open>A failing candidate does not stop the scan\<close>




section \<open>The exit status\<close>





section \<open>The fallback list\<close>

text \<open>
  C7. Whenever running a platform command raises (\<^verbatim>\<open>ip link show\<close>, or
  \<^verbatim>\<open>ifconfig\<close> when it is tried after a non-zero return code of \<^verbatim>\<open>ip\<close>), the interface
  source returns the fixed list eth0, eth1, enp0s3, en0, en9 instead of failing. The
  list returned is empty only when no command raised and the output that was parsed
  names no accepted interface.
\<close>

theorem fallback_on_exception:
  "(ip_link_show p = Inl e \<longrightarrow> get_network_interfaces p = fallback) \<and>
   (ip_link_show p = Inr r \<and> returncode r \<noteq> 0 \<and> ifconfig p = Inl e \<longrightarrow>
      get_network_interfaces p = fallback) \<and>
   fallback = [''eth0'', ''eth1'', ''enp0s3'', ''en0'', ''en9''] \<and>
   (get_network_interfaces p = [] \<longrightarrow>
      (\<exists>r. ip_link_show p = Inr r \<and>
         (if returncode r = 0 then parse_lines ip_line (split CHR 0x0A (stdout r)) = []
          else (\<exists>r'. ifconfig p = Inr r' \<and>
                  parse_lines ifconfig_line (split CHR 0x0A (stdout r')) = []))))"
  by (auto simp add: get_network_interfaces_def fallback_def split: sum.splits if_splits)

text \<open>The theorem on a host without the \<^verbatim>\<open>ip\<close> command.\<close>

theorem fallback_on_exception_witness:
  "ip_link_show host_no_ip = Inl (Exception ''No such file or directory: ip'') \<and>
   get_network_interfaces host_no_ip = [''eth0'', ''eth1'', ''enp0s3'', ''en0'', ''en9'']"
proof -
  have h: "ip_link_show host_no_ip = Inl (Exception ''No such file or directory: ip'')"
    by (simp add: host_no_ip_def)
  from fallback_on_exception [of host_no_ip "Exception ''No such file or directory: ip''"] h
  show ?thesis by simp
qed

text \<open>
  No fallback is taken when enumeration fails without raising: both commands end with
  return code 1 and no output, \<^verbatim>\<open>check=False\<close> raises nothing, the return code of
  \<^verbatim>\<open>ifconfig\<close> is not looked at, and the list returned is empty.
\<close>

theorem no_fallback_on_exit_status_counterexample:
  "ip_link_show host_both_fail = Inr (CompletedProcess 1 []) \<and>
   ifconfig host_both_fail = Inr (CompletedProcess 1 []) \<and>
   get_network_interfaces host_both_fail = []"
  by (simp add: host_both_fail_interfaces) (simp add: host_both_fail_def)


section \<open>Names that are skipped\<close>

text \<open>
  C8. Whatever the platform reports, no name in the list returned starts with
  \<^verbatim>\<open>lo\<close> (the loopback pattern of line 31) or with \<^verbatim>\<open>veth\<close> (its pattern for virtual
  interfaces). These two prefixes are the only patterns of exclusion in the source:
  there is none for bridges.
\<close>

theorem loopback_virtual_excluded:
  "\<forall>x\<in>set (get_network_interfaces p). \<not> startswith x ''lo'' \<and> \<not> startswith x ''veth''"
  using ip_line_filtered ifconfig_line_filtered fallback_filtered
  by (auto simp: get_network_interfaces_def set_parse_lines split: sum.splits if_splits)

text \<open>
  The theorem on a Linux host that lists \<^verbatim>\<open>lo\<close>, \<^verbatim>\<open>eth0\<close> and \<^verbatim>\<open>veth1a@if2\<close>: only
  \<^verbatim>\<open>eth0\<close> is returned.
\<close>

theorem loopback_virtual_excluded_witness:
  "get_network_interfaces host_linux = [''eth0''] \<and>
   \<not> startswith ''eth0'' ''lo'' \<and> \<not> startswith ''eth0'' ''veth''"
proof -
  have "''eth0'' \<in> set (get_network_interfaces host_linux)"
    by (simp add: host_linux_interfaces)
  with loopback_virtual_excluded [of host_linux] host_linux_interfaces
  show ?thesis by blast
qed

text \<open>
  Bridges are not excluded. On a Linux host whose \<^verbatim>\<open>ip link show\<close> lists \<^verbatim>\<open>eth0\<close> and
  the bridges \<^verbatim>\<open>br0\<close>, \<^verbatim>\<open>docker0\<close> and \<^verbatim>\<open>virbr0\<close>, all four names are returned.
\<close>

theorem bridge_names_kept_counterexample:
  "get_network_interfaces host_bridges = [''eth0'', ''br0'', ''docker0'', ''virbr0''] \<and>
   ''br0'' \<in> set (get_network_interfaces host_bridges) \<and>
   ''docker0'' \<in> set (get_network_interfaces host_bridges) \<and>
   ''virbr0'' \<in> set (get_network_interfaces host_bridges)"
  by (simp add: host_bridges_interfaces)


section \<open>The empty candidate list\<close>

text \<open>
  C9. When the candidate list is empty the probe returns \<^verbatim>\<open>None\<close>, and the effects of
  the run are three printed lines: no \<^verbatim>\<open>Master\<close> is constructed and no \<^verbatim>\<open>open\<close>,
  \<^verbatim>\<open>config_init\<close> or \<^verbatim>\<open>close\<close> is called.
\<close>

theorem empty_list_no_session:
  "get_network_interfaces p = [] \<Longrightarrow>
   detect_ethercat_interface p console pysoem =
     (None, [Print Banner, Print (Found_interfaces []), Print No_interfaces])"
  by (simp add: detect_ethercat_interface_def probe_Nil)

text \<open>The theorem on a host whose \<^verbatim>\<open>ip link show\<close> lists nothing.\<close>

theorem empty_list_no_session_witness:
  "get_network_interfaces host_no_interfaces = [] \<and>
   detect_ethercat_interface host_no_interfaces console_utf8 stack_ok =
     (None, [Print Banner, Print (Found_interfaces []), Print No_interfaces])"
proof -
  have h: "get_network_interfaces host_no_interfaces = []"
    by (rule host_no_interfaces_interfaces)
  from empty_list_no_session [OF h] h show ?thesis by simp
qed


section \<open>The release in the handler\<close>

text \<open>
  C10. When \<^verbatim>\<open>pysoem.Master()\<close> itself raises for a candidate, \<^verbatim>\<open>close\<close> is never called
  for that candidate. When the object was constructed, what the \<^verbatim>\<open>close()\<close> of the
  handler raises is dropped: replacing the behaviour of \<^verbatim>\<open>close\<close> of a session by any
  other that agrees with it on the call of the normal path (where there is one) changes
  neither the result of the probe, nor what it prints, nor the candidates attempted.
\<close>

theorem defensive_close_suppressed:
  "(pysoem i = Inl e \<longrightarrow> i \<notin> set (closes (snd (probe console pysoem interfaces)))) \<and>
   (i < length interfaces \<and> pysoem i = Inr m \<and>
    (attempt_error pysoem i (interfaces ! i) = None \<longrightarrow> g 0 = close_m m 0) \<longrightarrow>
      fst (probe console (pysoem(i := Inr (m\<lparr>close_m := g\<rparr>))) interfaces) =
        fst (probe console pysoem interfaces) \<and>
      prints (snd (probe console (pysoem(i := Inr (m\<lparr>close_m := g\<rparr>))) interfaces)) =
        prints (snd (probe console pysoem interfaces)) \<and>
      attempted (snd (probe console (pysoem(i := Inr (m\<lparr>close_m := g\<rparr>))) interfaces)) =
        attempted (snd (probe console pysoem interfaces)))"
proof (rule conjI; rule impI)
  assume a: "pysoem i = Inl e"
  show "i \<notin> set (closes (snd (probe console pysoem interfaces)))"
  proof
    assume b: "i \<in> set (closes (snd (probe console pysoem interfaces)))"
    then have ne: "interfaces \<noteq> []" by (auto simp add: probe_Nil)
    from b have "i \<in> set (closes (snd (for_loop console pysoem 0 interfaces)))"
      by (simp add: snd_probe [OF ne])
    from closes_for_loop [OF this] a show False by simp
  qed
next
  assume h: "i < length interfaces \<and> pysoem i = Inr m \<and>
    (attempt_error pysoem i (interfaces ! i) = None \<longrightarrow> g 0 = close_m m 0)"
  let ?s' = "pysoem(i := Inr (m\<lparr>close_m := g\<rparr>))"
  have ne: "interfaces \<noteq> []" using h by auto
  have "\<forall>j<length interfaces.
      fst (attempt console ?s' (0 + j) (interfaces ! j)) =
        fst (attempt console pysoem (0 + j) (interfaces ! j)) \<and>
      prints (snd (attempt console ?s' (0 + j) (interfaces ! j))) =
        prints (snd (attempt console pysoem (0 + j) (interfaces ! j)))"
  proof (intro allI impI)
    fix j assume "j < length interfaces"
    show "fst (attempt console ?s' (0 + j) (interfaces ! j)) =
        fst (attempt console pysoem (0 + j) (interfaces ! j)) \<and>
      prints (snd (attempt console ?s' (0 + j) (interfaces ! j))) =
        prints (snd (attempt console pysoem (0 + j) (interfaces ! j)))"
    proof (cases "j = i")
      case True
      have "?s' i = Inr (m\<lparr>close_m := g\<rparr>)" by simp
      from attempt_defensive_close [of pysoem i m ?s' g "interfaces ! i" console, OF _ this]
        h True
      show ?thesis by simp
    next
      case False
      then have "?s' j = pysoem j" by simp
      from attempt_cong [of ?s' j pysoem console, OF this] show ?thesis by simp
    qed
  qed
  from for_loop_similar [OF this]
  show "fst (probe console ?s' interfaces) = fst (probe console pysoem interfaces) \<and>
      prints (snd (probe console ?s' interfaces)) =
        prints (snd (probe console pysoem interfaces)) \<and>
      attempted (snd (probe console ?s' interfaces)) =
        attempted (snd (probe console pysoem interfaces))"
    by (simp add: fst_probe snd_probe [OF ne])
qed

text \<open>
  The theorem where no master can be constructed (no call of \<^verbatim>\<open>close\<close> for candidate
  0), and at the first scenario with a \<^verbatim>\<open>close\<close> that raises put on the session of
  \<^verbatim>\<open>eth0\<close>, whose \<^verbatim>\<open>open\<close> fails: \<^verbatim>\<open>eth1\<close> is selected all the same.
\<close>

theorem defensive_close_suppressed_witness:
  "stack_no_master 0 = Inl (Exception ''cannot create master'') \<and>
   0 \<notin> set (closes (snd (probe console_utf8 stack_no_master [''eth0'', ''eth1'']))) \<and>
   fst (probe console_utf8 stack_scenario1 [''eth0'', ''eth1'']) = Some ''eth1'' \<and>
   fst (probe console_utf8
     (stack_scenario1
        (0 := Inr (master_no_link\<lparr>close_m := (\<lambda>n. Some (Exception ''close failed''))\<rparr>)))
     [''eth0'', ''eth1'']) = Some ''eth1''"
proof -
  have a: "stack_no_master 0 = Inl (Exception ''cannot create master'')"
    by (simp add: stack_no_master_def)
  have c: "(0::nat) < length [''eth0'', ''eth1''] \<and> stack_scenario1 0 = Inr master_no_link \<and>
    (attempt_error stack_scenario1 0 ([''eth0'', ''eth1''] ! 0) = None \<longrightarrow>
       (\<lambda>n. Some (Exception ''close failed'')) 0 = close_m master_no_link 0)"
    by (simp add: attempt_error_def examples_defs)
  have d: "fst (probe console_utf8 stack_scenario1 [''eth0'', ''eth1'']) = Some ''eth1''"
    by (simp add: scenario1_run)
  from defensive_close_suppressed [of stack_no_master 0 "Exception ''cannot create master''"
      console_utf8 "[''eth0'', ''eth1'']"] a
  have e: "0 \<notin> set (closes (snd (probe console_utf8 stack_no_master [''eth0'', ''eth1''])))"
    by blast
  from defensive_close_suppressed [of stack_scenario1 0 "Exception ''cannot create master''"
      console_utf8 "[''eth0'', ''eth1'']" master_no_link
      "\<lambda>n. Some (Exception ''close failed'')"] c d
  have "fst (probe console_utf8
     (stack_scenario1
        (0 := Inr (master_no_link\<lparr>close_m := (\<lambda>n. Some (Exception ''close failed''))\<rparr>)))
     [''eth0'', ''eth1'']) = Some ''eth1''" by simp
  with a d e show ?thesis by simp
qed

end
